theory Spec2Isabelle
  imports Main "HOL-Library.Multiset"
begin

section \<open>Python strings\<close>

text \<open>
  A Python \<open>str\<close> is a sequence of Unicode code points, and \<open>len\<close> counts code points.
  A code point is a natural number here; \<open>py\<close> turns a literal of the source into
  such a string.
\<close>

type_synonym pystr = "nat list"

definition py :: "string \<Rightarrow> pystr" where
  "py s = map of_char s"

text \<open>
  \<open>str.isspace\<close> on one code point: the white space characters of CPython's Unicode
  database (U+0009..U+000D, U+001C..U+0020, U+0085, U+00A0, U+1680, U+2000..U+200A,
  U+2028, U+2029, U+202F, U+205F, U+3000).
\<close>

definition isspace :: "nat \<Rightarrow> bool" where
  "isspace c =
     ((9 \<le> c \<and> c \<le> 13) \<or> (28 \<le> c \<and> c \<le> 32) \<or> c = 133 \<or> c = 160 \<or> c = 5760 \<or>
      (8192 \<le> c \<and> c \<le> 8202) \<or> c = 8232 \<or> c = 8233 \<or> c = 8239 \<or> c = 8287 \<or>
      c = 12288)"

text \<open>\<open>str.strip()\<close> with no argument removes leading and trailing white space.\<close>

definition strip :: "pystr \<Rightarrow> pystr" where
  "strip s = rev (dropWhile isspace (rev (dropWhile isspace s)))"

text \<open>
  \<open>str.encode('utf-8')\<close>, which the database driver applies to every text it
  stores, succeeds exactly on strings of Unicode scalar values: a lone surrogate
  (U+D800..U+DFFF) raises \<open>UnicodeEncodeError\<close>.
\<close>

definition scalar_value :: "nat \<Rightarrow> bool" where
  "scalar_value c = (c < 55296 \<or> (57343 < c \<and> c < 1114112))"

definition utf8_encodable :: "pystr \<Rightarrow> bool" where
  "utf8_encodable s = list_all scalar_value s"

section \<open>Data model (models.py)\<close>

text \<open>
  \<open>django.contrib.auth.models.User\<close>, reduced to the columns the views write:
  the primary key, \<open>username\<close> (unique), \<open>password\<close> and \<open>is_active\<close>.
\<close>

record user =
  user_id :: nat
  username :: pystr
  password :: pystr
  is_active :: bool

text \<open>
  An uploaded file. What \<open>forms.ImageField.clean\<close> says about it (its name, its size and
  whether the imaging library can decode it) is decided outside the repository, so the
  upload carries the error codes that check raises for it; the empty list is a file the
  check accepts.
\<close>

record upload =
  up_name :: pystr
  up_errors :: "string list"

text \<open>
  \<open>class Tweet(models.Model)\<close>. The record \<open>tweet_fields\<close> holds the fields a caller
  can set on an instance (\<open>text\<close>, \<open>image\<close>, \<open>author\<close>); \<open>tweet\<close> extends it with
  the two values the database layer fills in when the row is inserted: the primary key and
  \<open>created_at\<close> (\<open>auto_now_add=True\<close>), a time stamp in microseconds. The author is the
  foreign key \<open>author_id\<close>, \<open>None\<close> for SQL NULL (\<open>null=True\<close>).
\<close>

record tweet_fields =
  tweet_text :: pystr
  tweet_image :: "upload option"
  author :: "nat option"

record tweet = tweet_fields +
  tweet_id :: nat
  created_at :: int

record db =
  users :: "user list"
  tweets :: "tweet list"

datatype error =
    DoesNotExist
  | MultipleObjectsReturned
  | NoReverseMatch
  | ValueError
  | ValidationError "(string \<times> string) list"

definition Tweet_text_max_length :: nat where
  "Tweet_text_max_length = 280"

text \<open>The primary key the database gives a new row: larger than every key in the table.\<close>

definition next_pk :: "nat list \<Rightarrow> nat" where
  "next_pk ks = Suc (foldr max ks 0)"

text \<open>\<open>User.objects.get(pk=k)\<close>, as following the foreign key \<open>self.author\<close> does.\<close>

definition User_get :: "db \<Rightarrow> nat \<Rightarrow> error + user" where
  "User_get d k =
     (case find (\<lambda>u. user_id u = k) (users d) of
        None \<Rightarrow> Inl DoesNotExist
      | Some u \<Rightarrow> Inr u)"

text \<open>
  \<open>Tweet.__str__\<close>:
  \<^verbatim>\<open>f"{self.author.username if self.author else 'Anonymous'}: {self.text[:50]}..."\<close>
\<close>

definition Tweet_str :: "db \<Rightarrow> 'a tweet_fields_scheme \<Rightarrow> error + pystr" where
  "Tweet_str d self =
     (case (case author self of
              None \<Rightarrow> Inr (py ''Anonymous'')
            | Some k \<Rightarrow> map_sum id username (User_get d k)) of
        Inl e \<Rightarrow> Inl e
      | Inr name \<Rightarrow> Inr (name @ py '': '' @ take 50 (tweet_text self) @ py ''...''))"

text \<open>
  \<open>Model.full_clean()\<close> on a Tweet, with the names of the fields to leave out.
  \<open>text\<close> is a \<open>CharField(max_length=280)\<close> with \<open>blank=False\<close>: the empty string
  raises \<open>blank\<close>, more than 280 code points raise \<open>max_length\<close>. \<open>author\<close> is checked
  only when set: the key must be a user's. \<open>image\<close> (\<open>blank=True\<close>, no validator) and
  \<open>created_at\<close> (not editable) raise nothing.
\<close>

definition clean_fields ::
  "string list \<Rightarrow> db \<Rightarrow> 'a tweet_fields_scheme \<Rightarrow> (string \<times> string) list" where
  "clean_fields exclude d self =
     (if ''text'' \<in> set exclude then []
      else if tweet_text self = [] then [(''text'', ''blank'')]
      else if length (tweet_text self) > Tweet_text_max_length then [(''text'', ''max_length'')]
      else []) @
     (if ''author'' \<in> set exclude then []
      else case author self of
        None \<Rightarrow> []
      | Some k \<Rightarrow> if k \<in> set (map user_id (users d)) then [] else [(''author'', ''invalid'')])"

definition full_clean :: "db \<Rightarrow> 'a tweet_fields_scheme \<Rightarrow> error + unit" where
  "full_clean d self =
     (let errs = clean_fields [] d self
      in if errs = [] then Inr () else Inl (ValidationError errs))"

text \<open>
  Modelled from the spec: the database settings are not under src/, and by the spec's
  section 3 the store does not reject an over-long \<open>text\<close> on an unchecked direct
  save. So \<open>Model.save()\<close> on an instance that has no primary key yet is one INSERT
  with no length check of its own: the row gets a fresh key and \<open>created_at = now\<close>
  (\<open>auto_now_add\<close>), and no validation runs. The driver's encoding of the text is
  not part of this function: what is said of a stored text is said of texts that are
  \<open>utf8_encodable\<close>.
\<close>

definition Tweet_save :: "int \<Rightarrow> db \<Rightarrow> tweet_fields \<Rightarrow> db \<times> tweet" where
  "Tweet_save now d self =
     (let row = \<lparr>tweet_text = tweet_text self, tweet_image = tweet_image self,
                 author = author self,
                 tweet_id = next_pk (map tweet_id (tweets d)), created_at = now\<rparr>
      in (d\<lparr>tweets := tweets d @ [row]\<rparr>, row))"

text \<open>
  \<open>Tweet.objects.all()\<close> under \<open>Meta.ordering = ['-created_at']\<close>: every row, newest
  first. Rows with equal time stamps stay in insertion order here; the database promises
  no order among them.
\<close>

definition Tweet_objects_all :: "db \<Rightarrow> tweet list" where
  "Tweet_objects_all d = sort_key (\<lambda>t. - created_at t) (tweets d)"

text \<open>
  \<open>User.objects.get_or_create(username=name, defaults={'password': pw, 'is_active': a})\<close>:
  the user of that name when there is one, a new row otherwise; \<open>get\<close> raises when several
  rows match.
\<close>

definition get_or_create ::
  "db \<Rightarrow> pystr \<Rightarrow> pystr \<Rightarrow> bool \<Rightarrow> error + (db \<times> user \<times> bool)" where
  "get_or_create d name pw a =
     (case filter (\<lambda>u. username u = name) (users d) of
        [] \<Rightarrow>
          (let u = \<lparr>user_id = next_pk (map user_id (users d)), username = name,
                    password = pw, is_active = a\<rparr>
           in Inr (d\<lparr>users := users d @ [u]\<rparr>, u, True))
      | [u] \<Rightarrow> Inr (d, u, False)
      | _ \<Rightarrow> Inl MultipleObjectsReturned)"

section \<open>The form (forms.py)\<close>

text \<open>
  \<open>QueryDict.get\<close>: the last value submitted under the key, \<open>None\<close> when the key is
  absent.
\<close>

definition querydict_get :: "(pystr \<times> 'v) list \<Rightarrow> pystr \<Rightarrow> 'v option" where
  "querydict_get qd k = map_of (rev qd) k"

text \<open>
  \<open>forms.CharField.clean\<close> for the form field that \<open>ModelForm\<close> derives from
  \<open>models.CharField(max_length=280)\<close>: required, and with \<open>strip=True\<close>, the
  default of \<open>forms.CharField\<close>, which \<open>TweetForm\<close> does not change (its
  \<open>Meta.widgets\<close> replaces the widget only; the \<open>maxlength\<close> attribute is a hint to
  the browser). \<open>Field.clean\<close> runs three steps in this order: \<open>to_python\<close>, which
  strips the submitted value; \<open>validate\<close>, which raises \<open>required\<close> on the empty
  string; \<open>run_validators\<close>, which checks the stripped value against \<open>max_length\<close>
  and for NUL characters and collects the errors of both validators.
\<close>

definition CharField_to_python :: "pystr option \<Rightarrow> pystr" where
  "CharField_to_python v = (case v of None \<Rightarrow> [] | Some s \<Rightarrow> if s = [] then [] else strip s)"

definition CharField_clean :: "nat \<Rightarrow> pystr option \<Rightarrow> string list + pystr" where
  "CharField_clean max_length v =
     (let s = CharField_to_python v in
      if s = [] then Inl [''required'']
      else
        let errs = (if length s > max_length then [''max_length''] else []) @
                   (if 0 \<in> set s then [''null_characters_not_allowed''] else [])
        in if errs = [] then Inr s else Inl errs)"

text \<open>\<open>forms.ImageField.clean\<close> for a field that is not required.\<close>

definition ImageField_clean :: "upload option \<Rightarrow> string list + upload option" where
  "ImageField_clean v =
     (case v of
        None \<Rightarrow> Inr None
      | Some u \<Rightarrow> if up_errors u = [] then Inr (Some u) else Inl (up_errors u))"

text \<open>The columns of the model, and \<open>TweetForm.Meta.fields\<close>.\<close>

definition Tweet_field_names :: "string list" where
  "Tweet_field_names = [''id'', ''text'', ''image'', ''created_at'', ''author'']"

definition TweetForm_fields :: "string list" where
  "TweetForm_fields = [''text'', ''image'']"

record tweet_form =
  is_bound :: bool
  form_errors :: "(string \<times> string) list"
  form_instance :: tweet_fields

text \<open>
  \<open>TweetForm(request.POST, request.FILES)\<close> after its cleaning has run. Only the keys
  \<open>text\<close> and \<open>image\<close> are read. Each form field is cleaned; the instance is built from
  the cleaned values (a field that failed keeps the model's default); then the model's
  own \<open>full_clean\<close> runs, leaving out the columns that are not form fields and those that
  already failed.
\<close>

definition TweetForm :: "db \<Rightarrow> (pystr \<times> pystr) list \<Rightarrow> (pystr \<times> upload) list \<Rightarrow> tweet_form" where
  "TweetForm d data files =
     (let text_r = CharField_clean Tweet_text_max_length (querydict_get data (py ''text''));
          image_r = ImageField_clean (querydict_get files (py ''image''));
          field_errs =
            (case text_r of Inl es \<Rightarrow> map (Pair ''text'') es | Inr _ \<Rightarrow> []) @
            (case image_r of Inl es \<Rightarrow> map (Pair ''image'') es | Inr _ \<Rightarrow> []);
          inst = \<lparr>tweet_text = (case text_r of Inl _ \<Rightarrow> [] | Inr s \<Rightarrow> s),
                  tweet_image = (case image_r of Inl _ \<Rightarrow> None | Inr i \<Rightarrow> i),
                  author = None\<rparr>;
          exclude = filter (\<lambda>f. f \<notin> set TweetForm_fields) Tweet_field_names @
                    map fst field_errs
      in \<lparr>is_bound = True,
          form_errors = field_errs @ clean_fields exclude d inst,
          form_instance = inst\<rparr>)"

text \<open>\<open>TweetForm()\<close>: the blank, unbound form.\<close>

definition TweetForm_unbound :: tweet_form where
  "TweetForm_unbound =
     \<lparr>is_bound = False, form_errors = [],
      form_instance = \<lparr>tweet_text = [], tweet_image = None, author = None\<rparr>\<rparr>"

definition is_valid :: "tweet_form \<Rightarrow> bool" where
  "is_valid f = (is_bound f \<and> form_errors f = [])"

text \<open>\<open>form.save(commit=False)\<close>: the instance, unsaved; a form with errors raises.\<close>

definition form_save :: "tweet_form \<Rightarrow> error + tweet_fields" where
  "form_save f = (if form_errors f \<noteq> [] then Inl ValueError else Inr (form_instance f))"

section \<open>The views (views.py)\<close>

record request =
  path :: string
  http_method :: string
  POST :: "(pystr \<times> pystr) list"
  FILES :: "(pystr \<times> upload) list"
  request_user :: "nat option"

datatype template_context = TweetsCtx "tweet list" | FormCtx tweet_form

datatype response = Render string template_context | Redirect string | NotFound

text \<open>
  What a view leaves behind: the database, the flash messages it added (level and text)
  and the response.
\<close>

record result =
  r_db :: db
  r_messages :: "(string \<times> string) list"
  r_response :: response

definition status_code :: "response \<Rightarrow> nat" where
  "status_code r = (case r of Render _ _ \<Rightarrow> 200 | Redirect _ \<Rightarrow> 302 | NotFound \<Rightarrow> 404)"

text \<open>
  Modelled from the spec: the URL configuration (urls.py) is not under src/. By the
  spec's section 6 the list view is at \<open>/\<close> and the create view at \<open>/create/\<close>, under the
  names the views and the tests use.
\<close>

definition reverse :: "string \<Rightarrow> error + string" where
  "reverse name =
     (if name = ''tweet_list'' then Inr ''/''
      else if name = ''tweet_create'' then Inr ''/create/''
      else Inl NoReverseMatch)"

definition tweet_list :: "db \<Rightarrow> request \<Rightarrow> error + result" where
  "tweet_list d request =
     (let tweets = Tweet_objects_all d
      in Inr \<lparr>r_db = d, r_messages = [],
              r_response = Render ''tweets/tweet_list.html'' (TweetsCtx tweets)\<rparr>)"

definition tweet_create :: "int \<Rightarrow> db \<Rightarrow> request \<Rightarrow> error + result" where
  "tweet_create now d request =
     (if http_method request = ''POST'' then
        (let form = TweetForm d (POST request) (FILES request) in
         if is_valid form then
           (case form_save form of
              Inl e \<Rightarrow> Inl e
            | Inr tweet \<Rightarrow>
               (case get_or_create d (py ''demo'') (py ''demo12345'') True of
                  Inl e \<Rightarrow> Inl e
                | Inr (d1, demo_user, created) \<Rightarrow>
                   (let tweet = tweet\<lparr>author := Some (user_id demo_user)\<rparr>;
                        (d2, saved) = Tweet_save now d1 tweet
                    in case reverse ''tweet_list'' of
                         Inl e \<Rightarrow> Inl e
                       | Inr url \<Rightarrow>
                           Inr \<lparr>r_db = d2,
                                r_messages = [(''success'', ''Tweet posted successfully!'')],
                                r_response = Redirect url\<rparr>)))
         else
           Inr \<lparr>r_db = d, r_messages = [],
                r_response = Render ''tweets/tweet_form.html'' (FormCtx form)\<rparr>)
      else
        Inr \<lparr>r_db = d, r_messages = [],
             r_response = Render ''tweets/tweet_form.html'' (FormCtx TweetForm_unbound)\<rparr>)"

text \<open>
  Modelled from the spec: the router (urls.py) is not under src/; section 6 of the spec
  gives the two paths. Any other path is not found.
\<close>

definition dispatch :: "int \<Rightarrow> db \<Rightarrow> request \<Rightarrow> error + result" where
  "dispatch now d request =
     (if path request = ''/'' then tweet_list d request
      else if path request = ''/create/'' then tweet_create now d request
      else Inr \<lparr>r_db = d, r_messages = [], r_response = NotFound\<rparr>)"

text \<open>
  A run of the system: requests served one after the other, each with the clock reading
  at which it is served. An exception ends the run.
\<close>

fun run :: "db \<Rightarrow> (int \<times> request) list \<Rightarrow> error + db" where
  "run d [] = Inr d"
| "run d ((now, rq) # rest) =
     (case dispatch now d rq of
        Inl e \<Rightarrow> Inl e
      | Inr r \<Rightarrow> run (r_db r) rest)"

text \<open>
  The constraints the database keeps on the \<open>auth_user\<close> table: primary keys and user
  names are unique.
\<close>

definition unique_users :: "db \<Rightarrow> bool" where
  "unique_users d = (distinct (map user_id (users d)) \<and> distinct (map username (users d)))"

section \<open>Example inputs\<close>

text \<open>The database before any request, and a POST to the create view with payload
  \<open>{text: T}\<close>, as the view tests send it.\<close>

definition empty_db :: db where
  "empty_db = \<lparr>users = [], tweets = []\<rparr>"

definition post_text :: "pystr \<Rightarrow> request" where
  "post_text T =
     \<lparr>path = ''/create/'', http_method = ''POST'', POST = [(py ''text'', T)], FILES = [],
      request_user = None\<rparr>"

section \<open>Properties\<close>

lemma strip_length: "length (strip s) \<le> length s"
proof -
  have "length (strip s) \<le> length (dropWhile isspace s)"
    unfolding strip_def by (metis length_rev length_dropWhile_le)
  also have "\<dots> \<le> length s" by (rule length_dropWhile_le)
  finally show ?thesis .
qed

lemma strip_set: "set (strip s) \<subseteq> set s"
proof
  fix c assume "c \<in> set (strip s)"
  then have "c \<in> set (dropWhile isspace (rev (dropWhile isspace s)))"
    by (simp add: strip_def)
  then have "c \<in> set (rev (dropWhile isspace s))" by (rule set_dropWhileD)
  then have "c \<in> set (dropWhile isspace s)" by simp
  then show "c \<in> set s" by (rule set_dropWhileD)
qed

lemma strip_Nil_iff: "strip s = [] \<longleftrightarrow> (\<forall>c\<in>set s. isspace c)"
proof
  assume "strip s = []"
  then have a: "\<forall>c\<in>set (dropWhile isspace s). isspace c"
    by (simp add: strip_def)
  have "dropWhile isspace s = []"
  proof (cases "dropWhile isspace s")
    case Nil then show ?thesis .
  next
    case (Cons x xs)
    then have "\<not> isspace x" by (metis hd_dropWhile list.sel(1) list.distinct(1))
    moreover have "isspace x" using a Cons by simp
    ultimately show ?thesis by simp
  qed
  then show "\<forall>c\<in>set s. isspace c" by simp
next
  assume "\<forall>c\<in>set s. isspace c"
  then show "strip s = []" by (auto simp: strip_def dest: set_dropWhileD)
qed

lemma strip_id: 
  assumes "s \<noteq> []" "\<not> isspace (hd s)" "\<not> isspace (last s)"
  shows "strip s = s"
proof -
  have a: "dropWhile isspace s = s"
    using assms(2) by (simp add: dropWhile_eq_self_iff)
  have "hd (rev s) = last s" using assms(1) by (simp add: hd_rev)
  then have "dropWhile isspace (rev s) = rev s"
    using assms(3) by (simp add: dropWhile_eq_self_iff)
  with a show ?thesis by (simp add: strip_def)
qed

lemma next_pk_greater: "k \<in> set ks \<Longrightarrow> k < next_pk ks"
  unfolding next_pk_def by (induction ks) auto

lemma filter_key_le_one: "distinct (map f xs) \<Longrightarrow> length (filter (\<lambda>x. f x = k) xs) \<le> 1"
proof (induction xs)
  case Nil then show ?case by simp
next
  case (Cons x xs)
  show ?case
  proof (cases "f x = k")
    case True
    then have "k \<notin> f ` set xs" using Cons.prems by auto
    then have "filter (\<lambda>x. f x = k) xs = []" by (auto simp: filter_empty_conv)
    with True show ?thesis by simp
  next
    case False
    with Cons show ?thesis by simp
  qed
qed

lemma CharField_clean_Inr_iff:
  "CharField_clean n v = Inr s \<longleftrightarrow>
     s = CharField_to_python v \<and> s \<noteq> [] \<and> length s \<le> n \<and> 0 \<notin> set s"
  by (auto simp: CharField_clean_def Let_def)

lemma CharField_clean_Inl: "CharField_clean n v = Inl es \<Longrightarrow> es \<noteq> []"
  by (auto simp: CharField_clean_def Let_def split: if_splits)

lemma ImageField_clean_Inl: "ImageField_clean v = Inl es \<Longrightarrow> es \<noteq> []"
  by (auto simp: ImageField_clean_def split: option.splits if_splits)

lemma TweetForm_ok:
  assumes "CharField_clean Tweet_text_max_length (querydict_get data (py ''text'')) = Inr s"
    and "ImageField_clean (querydict_get files (py ''image'')) = Inr i"
  shows "TweetForm d data files =
    \<lparr>is_bound = True, form_errors = [],
     form_instance = \<lparr>tweet_text = s, tweet_image = i, author = None\<rparr>\<rparr>"
proof -
  have s: "s \<noteq> []" "length s \<le> Tweet_text_max_length"
    using assms(1) by (auto simp: CharField_clean_Inr_iff)
  have "clean_fields ([''id'', ''created_at'', ''author''])
          d \<lparr>tweet_text = s, tweet_image = i, author = None\<rparr> = []"
    using s by (simp add: clean_fields_def)
  then show ?thesis
    using assms by (simp add: TweetForm_def Let_def Tweet_field_names_def TweetForm_fields_def)
qed

lemma TweetForm_bad:
  assumes "CharField_clean Tweet_text_max_length (querydict_get data (py ''text'')) = Inl es
    \<or> ImageField_clean (querydict_get files (py ''image'')) = Inl es"
  shows "form_errors (TweetForm d data files) \<noteq> []"
  using assms CharField_clean_Inl ImageField_clean_Inl
  by (auto simp: TweetForm_def Let_def split: sum.splits)

lemma TweetForm_bound: "is_bound (TweetForm d data files)"
  by (simp add: TweetForm_def Let_def)

lemma is_valid_iff:
  "is_valid (TweetForm d data files) \<longleftrightarrow>
     (\<exists>s. CharField_clean Tweet_text_max_length (querydict_get data (py ''text'')) = Inr s) \<and>
     (\<exists>i. ImageField_clean (querydict_get files (py ''image'')) = Inr i)"
proof (cases "CharField_clean Tweet_text_max_length (querydict_get data (py ''text''))")
  case (Inl es)
  then show ?thesis using TweetForm_bad[of data es files d] by (simp add: is_valid_def)
next
  case (Inr s)
  note t = this
  show ?thesis
  proof (cases "ImageField_clean (querydict_get files (py ''image''))")
    case (Inl es)
    then show ?thesis using TweetForm_bad[of data es files d] by (simp add: is_valid_def)
  next
    case (Inr i)
    then show ?thesis using TweetForm_ok[OF t Inr, of d] t by (simp add: is_valid_def)
  qed
qed

lemma tweet_create_invalid:
  assumes "http_method rq = ''POST''" "\<not> is_valid (TweetForm d (POST rq) (FILES rq))"
  shows "tweet_create now d rq =
    Inr \<lparr>r_db = d, r_messages = [],
         r_response = Render ''tweets/tweet_form.html''
                        (FormCtx (TweetForm d (POST rq) (FILES rq)))\<rparr>"
  using assms by (simp add: tweet_create_def Let_def)

lemma tweet_create_valid:
  assumes "http_method rq = ''POST''"
    and "CharField_clean Tweet_text_max_length (querydict_get (POST rq) (py ''text'')) = Inr s"
    and "ImageField_clean (querydict_get (FILES rq) (py ''image'')) = Inr i"
    and "get_or_create d (py ''demo'') (py ''demo12345'') True = Inr (d1, u, c)"
  shows "tweet_create now d rq =
    Inr \<lparr>r_db = d1\<lparr>tweets := tweets d1 @
            [\<lparr>tweet_text = s, tweet_image = i, author = Some (user_id u),
              tweet_id = next_pk (map tweet_id (tweets d1)), created_at = now\<rparr>]\<rparr>,
         r_messages = [(''success'', ''Tweet posted successfully!'')],
         r_response = Redirect ''/''\<rparr>"
proof -
  have f: "TweetForm d (POST rq) (FILES rq) =
    \<lparr>is_bound = True, form_errors = [],
     form_instance = \<lparr>tweet_text = s, tweet_image = i, author = None\<rparr>\<rparr>"
    using assms(2,3) by (rule TweetForm_ok)
  show ?thesis
    using assms(1,4)
    by (simp add: tweet_create_def f is_valid_def form_save_def Tweet_save_def reverse_def Let_def)
qed

lemma tweet_create_valid_error:
  assumes "http_method rq = ''POST''"
    and "is_valid (TweetForm d (POST rq) (FILES rq))"
    and "get_or_create d (py ''demo'') (py ''demo12345'') True = Inl e"
  shows "tweet_create now d rq = Inl e"
  using assms by (simp add: tweet_create_def Let_def form_save_def is_valid_def)

lemma tweet_create_not_post:
  "http_method rq \<noteq> ''POST'' \<Longrightarrow> tweet_create now d rq =
    Inr \<lparr>r_db = d, r_messages = [],
         r_response = Render ''tweets/tweet_form.html'' (FormCtx TweetForm_unbound)\<rparr>"
  by (simp add: tweet_create_def)

lemma get_or_create_cases:
  assumes "length (filter (\<lambda>u. username u = n) (users d)) \<le> 1"
  shows "(\<exists>u. get_or_create d n pw a = Inr (d, u, False) \<and> u \<in> set (users d) \<and> username u = n)
       \<or> (n \<notin> set (map username (users d)) \<and>
          get_or_create d n pw a =
            Inr (d\<lparr>users := users d @
                   [\<lparr>user_id = next_pk (map user_id (users d)), username = n,
                     password = pw, is_active = a\<rparr>]\<rparr>,
                 \<lparr>user_id = next_pk (map user_id (users d)), username = n,
                  password = pw, is_active = a\<rparr>, True))"
proof (cases "filter (\<lambda>u. username u = n) (users d)")
  case Nil
  then have "n \<notin> set (map username (users d))" by (auto simp: filter_empty_conv)
  with Nil show ?thesis by (simp add: get_or_create_def Let_def)
next
  case (Cons u us)
  then have us: "us = []" using assms by simp
  have "u \<in> set (filter (\<lambda>u. username u = n) (users d))" using Cons by simp
  then have "u \<in> set (users d)" "username u = n" by auto
  then show ?thesis using Cons us by (simp add: get_or_create_def)
qed

lemma get_or_create_Inr:
  assumes "get_or_create d n pw a = Inr (d1, u, c)"
  shows "u \<in> set (users d1) \<and> username u = n \<and> tweets d1 = tweets d \<and>
         (\<exists>new. users d1 = users d @ new)"
proof (cases "filter (\<lambda>u. username u = n) (users d)")
  case Nil
  with assms show ?thesis by (auto simp: get_or_create_def Let_def)
next
  case (Cons v vs)
  with assms have vs: "vs = []" and e: "d1 = d" "u = v"
    by (auto simp: get_or_create_def split: list.splits)
  have "v \<in> set (filter (\<lambda>u. username u = n) (users d))" using Cons by simp
  then show ?thesis using e by auto
qed

lemma get_or_create_unique:
  assumes "unique_users d"
  shows "\<exists>d1 u c. get_or_create d n pw a = Inr (d1, u, c) \<and> unique_users d1 \<and>
           filter (\<lambda>u. username u = n) (users d1) = [u] \<and> tweets d1 = tweets d \<and>
           (if n \<in> set (map username (users d)) then users d1 = users d
            else users d1 = users d @ [u])"
proof -
  have le: "length (filter (\<lambda>u. username u = n) (users d)) \<le> 1"
    using assms filter_key_le_one[of username "users d" n] by (simp add: unique_users_def)
  from get_or_create_cases[OF le, of pw a] show ?thesis
  proof
    assume "\<exists>u. get_or_create d n pw a = Inr (d, u, False) \<and> u \<in> set (users d) \<and> username u = n"
    then obtain u where u: "get_or_create d n pw a = Inr (d, u, False)"
      "u \<in> set (users d)" "username u = n" by blast
    then have "u \<in> set (filter (\<lambda>u. username u = n) (users d))" by simp
    with le have "filter (\<lambda>u. username u = n) (users d) = [u]"
      by (cases "filter (\<lambda>u. username u = n) (users d)") auto
    moreover have "n \<in> set (map username (users d))" using u(2,3) by auto
    ultimately show ?thesis using u(1) assms by auto
  next
    let ?u = "\<lparr>user_id = next_pk (map user_id (users d)), username = n,
               password = pw, is_active = a\<rparr>"
    assume h: "n \<notin> set (map username (users d)) \<and>
      get_or_create d n pw a = Inr (d\<lparr>users := users d @ [?u]\<rparr>, ?u, True)"
    have "next_pk (map user_id (users d)) \<notin> set (map user_id (users d))"
      using next_pk_greater[of "next_pk (map user_id (users d))" "map user_id (users d)"]
      by auto
    then have "unique_users (d\<lparr>users := users d @ [?u]\<rparr>)"
      using assms h by (simp add: unique_users_def)
    moreover have "filter (\<lambda>u. username u = n) (users d) = []"
      using h by (auto simp: filter_empty_conv)
    ultimately show ?thesis using h by auto
  qed
qed

lemma tweet_create_Inr_cases:
  assumes "tweet_create now d rq = Inr r"
  shows "(\<exists>f. r = \<lparr>r_db = d, r_messages = [],
                    r_response = Render ''tweets/tweet_form.html'' (FormCtx f)\<rparr> \<and>
              \<not> (http_method rq = ''POST'' \<and> is_valid (TweetForm d (POST rq) (FILES rq))))
       \<or> (http_method rq = ''POST'' \<and> is_valid (TweetForm d (POST rq) (FILES rq)) \<and>
          (\<exists>d1 u c s i. get_or_create d (py ''demo'') (py ''demo12345'') True = Inr (d1, u, c) \<and>
             r = \<lparr>r_db = d1\<lparr>tweets := tweets d1 @
                     [\<lparr>tweet_text = s, tweet_image = i, author = Some (user_id u),
                       tweet_id = next_pk (map tweet_id (tweets d1)), created_at = now\<rparr>]\<rparr>,
                   r_messages = [(''success'', ''Tweet posted successfully!'')],
                   r_response = Redirect ''/''\<rparr>))"
proof (cases "http_method rq = ''POST'' \<and> is_valid (TweetForm d (POST rq) (FILES rq))")
  case False
  then show ?thesis
    using assms tweet_create_invalid[of rq d now] tweet_create_not_post[of rq now d]
    by (cases "http_method rq = ''POST''") auto
next
  case True
  then obtain s i where
    s: "CharField_clean Tweet_text_max_length (querydict_get (POST rq) (py ''text'')) = Inr s"
    and i: "ImageField_clean (querydict_get (FILES rq) (py ''image'')) = Inr i"
    by (auto simp: is_valid_iff)
  show ?thesis
  proof (cases "get_or_create d (py ''demo'') (py ''demo12345'') True")
    case (Inl e)
    then show ?thesis using assms True tweet_create_valid_error[of rq d e now] by simp
  next
    case (Inr x)
    obtain d1 u c where x: "x = (d1, u, c)" by (cases x) auto
    show ?thesis
      using assms True tweet_create_valid[OF _ s i, of d d1 u c now] Inr x by auto
  qed
qed

lemma tweet_create_unique:
  assumes "unique_users d"
  shows "\<exists>r. tweet_create now d rq = Inr r \<and> unique_users (r_db r)"
proof (cases "http_method rq = ''POST'' \<and> is_valid (TweetForm d (POST rq) (FILES rq))")
  case False
  then show ?thesis
    using assms tweet_create_invalid[of rq d now] tweet_create_not_post[of rq now d]
    by (cases "http_method rq = ''POST''") auto
next
  case True
  then obtain s i where
    s: "CharField_clean Tweet_text_max_length (querydict_get (POST rq) (py ''text'')) = Inr s"
    and i: "ImageField_clean (querydict_get (FILES rq) (py ''image'')) = Inr i"
    by (auto simp: is_valid_iff)
  from get_or_create_unique[OF assms, of "py ''demo''" "py ''demo12345''" True]
  obtain d1 u c where g: "get_or_create d (py ''demo'') (py ''demo12345'') True = Inr (d1, u, c)"
    and u: "unique_users d1" by blast
  show ?thesis
    using tweet_create_valid[OF _ s i g, of now] True u by (simp add: unique_users_def)
qed

lemma dispatch_unique:
  assumes "unique_users d"
  shows "\<exists>r. dispatch now d rq = Inr r \<and> unique_users (r_db r)"
  using assms tweet_create_unique[OF assms, of now rq]
  by (auto simp: dispatch_def tweet_list_def Let_def)

lemma dispatch_tweets:
  assumes "dispatch now d rq = Inr r"
  shows "\<exists>new. tweets (r_db r) = tweets d @ new \<and> (\<forall>t\<in>set new. created_at t = now)"
proof (cases "path rq = ''/create/''")
  case True
  then have "tweet_create now d rq = Inr r" using assms by (simp add: dispatch_def)
  from tweet_create_Inr_cases[OF this] show ?thesis
  proof
    assume "\<exists>f. r = \<lparr>r_db = d, r_messages = [],
                    r_response = Render ''tweets/tweet_form.html'' (FormCtx f)\<rparr> \<and>
              \<not> (http_method rq = ''POST'' \<and> is_valid (TweetForm d (POST rq) (FILES rq)))"
    then have "r_db r = d" by auto
    then show ?thesis by simp
  next
    assume "http_method rq = ''POST'' \<and> is_valid (TweetForm d (POST rq) (FILES rq)) \<and>
          (\<exists>d1 u c s i. get_or_create d (py ''demo'') (py ''demo12345'') True = Inr (d1, u, c) \<and>
             r = \<lparr>r_db = d1\<lparr>tweets := tweets d1 @
                     [\<lparr>tweet_text = s, tweet_image = i, author = Some (user_id u),
                       tweet_id = next_pk (map tweet_id (tweets d1)), created_at = now\<rparr>]\<rparr>,
                   r_messages = [(''success'', ''Tweet posted successfully!'')],
                   r_response = Redirect ''/''\<rparr>)"
    then obtain d1 u c s i where
      g: "get_or_create d (py ''demo'') (py ''demo12345'') True = Inr (d1, u, c)"
      and r: "r = \<lparr>r_db = d1\<lparr>tweets := tweets d1 @
                     [\<lparr>tweet_text = s, tweet_image = i, author = Some (user_id u),
                       tweet_id = next_pk (map tweet_id (tweets d1)), created_at = now\<rparr>]\<rparr>,
                   r_messages = [(''success'', ''Tweet posted successfully!'')],
                   r_response = Redirect ''/''\<rparr>" by blast
    have "tweets d1 = tweets d" using get_or_create_Inr[OF g] by simp
    then show ?thesis using r by simp
  qed
next
  case False
  then have "r_db r = d" using assms by (auto simp: dispatch_def tweet_list_def Let_def split: if_splits)
  then show ?thesis by simp
qed

lemma run_tweets:
  "run d reqs = Inr d' \<Longrightarrow> \<exists>new. tweets d' = tweets d @ new"
proof (induction reqs arbitrary: d)
  case Nil
  then show ?case by simp
next
  case (Cons a reqs)
  obtain now rq where a: "a = (now, rq)" by (cases a) auto
  from Cons.prems a obtain r where r: "dispatch now d rq = Inr r" "run (r_db r) reqs = Inr d'"
    by (auto split: sum.splits)
  from dispatch_tweets[OF r(1)] obtain n1 where "tweets (r_db r) = tweets d @ n1" by blast
  moreover from Cons.IH[OF r(2)] obtain n2 where "tweets d' = tweets (r_db r) @ n2" by blast
  ultimately show ?case by simp
qed

lemma run_unique:
  "unique_users d \<Longrightarrow> \<exists>d'. run d reqs = Inr d' \<and> unique_users d'"
proof (induction reqs arbitrary: d)
  case Nil
  then show ?case by simp
next
  case (Cons a reqs)
  obtain now rq where a: "a = (now, rq)" by (cases a) auto
  from dispatch_unique[OF Cons.prems, of now rq]
  obtain r where r: "dispatch now d rq = Inr r" "unique_users (r_db r)" by blast
  from Cons.IH[OF r(2)] show ?case using r(1) a by simp
qed

lemma py_eq_iff: "py a = py b \<longleftrightarrow> a = b"
  unfolding py_def using inj_of_char[where ?'a = nat] by (simp add: inj_map_eq_map)

lemma unique_users_empty: "unique_users empty_db"
  by (simp add: unique_users_def empty_db_def)

lemma get_or_create_empty:
  "get_or_create empty_db n pw a =
     Inr (\<lparr>users = [\<lparr>user_id = 1, username = n, password = pw, is_active = a\<rparr>], tweets = []\<rparr>,
          \<lparr>user_id = 1, username = n, password = pw, is_active = a\<rparr>, True)"
  by (simp add: get_or_create_def empty_db_def next_pk_def Let_def)

lemma post_text_sel:
  "http_method (post_text T) = ''POST''"
  "querydict_get (POST (post_text T)) (py ''text'') = Some T"
  "querydict_get (FILES (post_text T)) (py ''image'') = None"
  by (simp_all add: post_text_def querydict_get_def)

lemma ImageField_clean_None: "ImageField_clean None = Inr None"
  by (simp add: ImageField_clean_def)

lemma CharField_clean_strip:
  assumes "length (strip T) \<le> n" "strip T \<noteq> []" "0 \<notin> set (strip T)"
  shows "CharField_clean n (Some T) = Inr (strip T)"
proof -
  have "T \<noteq> []" using assms(2) by (auto simp: strip_def)
  then have "CharField_to_python (Some T) = strip T" by (simp add: CharField_to_python_def)
  then show ?thesis using assms by (simp add: CharField_clean_Inr_iff)
qed

text \<open>
  C1 (as amended). A text is valid when it has a character other than white space, no
  NUL character, and only characters the store can encode (Unicode scalar values). For
  every valid text \<open>T\<close> of at most 280 characters, a POST to the create view with
  \<open>text = T\<close> and no image, on a database that keeps user names unique, passes form
  validation and persists exactly one new Tweet. The stored text is \<open>T\<close> with its
  leading and trailing white space stripped; it is \<open>T\<close> itself when \<open>T\<close> neither
  begins nor ends with white space.
\<close>

theorem create_stores_stripped_text:
  assumes u: "unique_users d"
    and m: "http_method rq = ''POST''"
    and t: "querydict_get (POST rq) (py ''text'') = Some T"
    and i: "querydict_get (FILES rq) (py ''image'') = None"
    and l: "length T \<le> 280"
    and ns: "\<exists>c\<in>set T. \<not> isspace c"
    and nz: "0 \<notin> set T"
    and en: "utf8_encodable T"
  shows "is_valid (TweetForm d (POST rq) (FILES rq)) \<and>
    (\<exists>r row. tweet_create now d rq = Inr r \<and> tweets (r_db r) = tweets d @ [row] \<and>
       tweet_text row = strip T \<and> utf8_encodable (tweet_text row) \<and>
       (\<not> isspace (hd T) \<and> \<not> isspace (last T) \<longrightarrow> tweet_text row = T))"
proof -
  have ne: "strip T \<noteq> []" using ns by (simp add: strip_Nil_iff)
  have "length (strip T) \<le> Tweet_text_max_length"
    using l strip_length[of T] by (simp add: Tweet_text_max_length_def)
  moreover have "0 \<notin> set (strip T)" using nz strip_set[of T] by auto
  ultimately have c: "CharField_clean Tweet_text_max_length
      (querydict_get (POST rq) (py ''text'')) = Inr (strip T)"
    using ne t by (simp add: CharField_clean_strip)
  have im: "ImageField_clean (querydict_get (FILES rq) (py ''image'')) = Inr None"
    using i by (simp add: ImageField_clean_None)
  have v: "is_valid (TweetForm d (POST rq) (FILES rq))"
    using c im by (simp add: is_valid_iff)
  from get_or_create_unique[OF u, of "py ''demo''" "py ''demo12345''" True]
  obtain d1 us cr where
    g: "get_or_create d (py ''demo'') (py ''demo12345'') True = Inr (d1, us, cr)"
    and td: "tweets d1 = tweets d" by blast
  have T: "T \<noteq> []" using ns by auto
  have id: "\<not> isspace (hd T) \<and> \<not> isspace (last T) \<longrightarrow> strip T = T"
    using T by (simp add: strip_id)
  have es: "utf8_encodable (strip T)"
    using en strip_set[of T] by (auto simp: utf8_encodable_def list_all_iff)
  show ?thesis
    using tweet_create_valid[OF m c im g, of now] v td id es by simp
qed

theorem create_stores_stripped_text_witness:
  "is_valid (TweetForm empty_db (POST (post_text (py ''hello world'')))
       (FILES (post_text (py ''hello world'')))) \<and>
   (\<exists>r row. tweet_create 0 empty_db (post_text (py ''hello world'')) = Inr r \<and>
      tweets (r_db r) = tweets empty_db @ [row] \<and> tweet_text row = py ''hello world'')"
proof -
  have l: "length (py ''hello world'') \<le> 280" by (simp add: py_def)
  have ns: "\<exists>c\<in>set (py ''hello world''). \<not> isspace c" by (simp add: py_def isspace_def)
  have nz: "0 \<notin> set (py ''hello world'')" by (simp add: py_def)
  have en: "utf8_encodable (py ''hello world'')"
    by (simp add: py_def utf8_encodable_def scalar_value_def)
  have e: "\<not> isspace (hd (py ''hello world'')) \<and> \<not> isspace (last (py ''hello world''))"
    by (simp add: py_def isspace_def)
  show ?thesis
    using create_stores_stripped_text[OF unique_users_empty post_text_sel l ns nz en, of 0] e
    by auto
qed

text \<open>
  C1 as stated fails: the text \<open>" a"\<close> (two characters, valid in the sense above) is
  accepted, and the stored text is \<open>"a"\<close>, not the text that was posted.
\<close>

theorem create_text_exact_counterexample:
  "length (py '' a'') \<le> 280 \<and> utf8_encodable (py '' a'') \<and> 0 \<notin> set (py '' a'') \<and>
   py ''a'' \<noteq> py '' a'' \<and>
   tweet_create 0 empty_db (post_text (py '' a'')) =
     Inr \<lparr>r_db = \<lparr>users = [\<lparr>user_id = 1, username = py ''demo'',
                             password = py ''demo12345'', is_active = True\<rparr>],
                   tweets = [\<lparr>tweet_text = py ''a'', tweet_image = None, author = Some 1,
                              tweet_id = 1, created_at = 0\<rparr>]\<rparr>,
          r_messages = [(''success'', ''Tweet posted successfully!'')],
          r_response = Redirect ''/''\<rparr>"
proof -
  have s: "strip (py '' a'') = py ''a''" by (simp add: strip_def py_def isspace_def)
  have c: "CharField_clean Tweet_text_max_length
      (querydict_get (POST (post_text (py '' a''))) (py ''text'')) = Inr (py ''a'')"
    using CharField_clean_strip[of "py '' a''" Tweet_text_max_length]
    by (simp add: s post_text_sel) (simp add: py_def Tweet_text_max_length_def)
  have im: "ImageField_clean (querydict_get (FILES (post_text (py '' a''))) (py ''image''))
      = Inr None"
    by (simp add: post_text_sel ImageField_clean_None)
  have e: "utf8_encodable (py '' a'') \<and> 0 \<notin> set (py '' a'')"
    by (simp add: py_def utf8_encodable_def scalar_value_def)
  show ?thesis
    using tweet_create_valid[OF post_text_sel(1) c im get_or_create_empty, of 0] e
    by (simp add: next_pk_def py_eq_iff) (simp add: py_def)
qed

text \<open>
  C2 (as amended). For every text \<open>T\<close> that is longer than 280 characters after its
  leading and trailing white space is stripped (so every \<open>T\<close> longer than 280 that
  neither begins nor ends with white space), a POST to the create view with \<open>text = T\<close>
  fails form validation with the error \<open>max_length\<close> on \<open>text\<close>, the form is
  rendered again and the database is unchanged.
\<close>

theorem create_rejects_text_long_after_strip:
  assumes m: "http_method rq = ''POST''"
    and t: "querydict_get (POST rq) (py ''text'') = Some T"
    and l: "length (strip T) > 280"
  shows "\<not> is_valid (TweetForm d (POST rq) (FILES rq)) \<and>
    (''text'', ''max_length'') \<in> set (form_errors (TweetForm d (POST rq) (FILES rq))) \<and>
    tweet_create now d rq =
      Inr \<lparr>r_db = d, r_messages = [],
           r_response = Render ''tweets/tweet_form.html''
                          (FormCtx (TweetForm d (POST rq) (FILES rq)))\<rparr>"
proof -
  have T: "T \<noteq> []" using l by (auto simp: strip_def)
  have p: "CharField_to_python (Some T) = strip T" using T by (simp add: CharField_to_python_def)
  have ne: "strip T \<noteq> []" using l by auto
  obtain es where c: "CharField_clean Tweet_text_max_length (Some T) = Inl es"
    and mem: "''max_length'' \<in> set es"
    using l ne p by (auto simp: CharField_clean_def Let_def Tweet_text_max_length_def)
  have nv: "\<not> is_valid (TweetForm d (POST rq) (FILES rq))"
    using c t by (simp add: is_valid_iff)
  have "(''text'', ''max_length'') \<in> set (form_errors (TweetForm d (POST rq) (FILES rq)))"
    using c t mem by (auto simp: TweetForm_def Let_def)
  then show ?thesis using nv tweet_create_invalid[OF m nv, of now] by simp
qed

lemma strip_replicate: "\<not> isspace c \<Longrightarrow> strip (replicate n c) = replicate n c"
proof (cases n)
  case 0
  then show ?thesis by (simp add: strip_def)
next
  case (Suc m)
  assume c: "\<not> isspace c"
  have "replicate n c \<noteq> []" "hd (replicate n c) = c" "last (replicate n c) = c"
    using Suc by (simp_all del: replicate.simps)
  then show ?thesis using c by (simp add: strip_id del: replicate.simps)
qed

theorem create_rejects_text_long_after_strip_witness:
  "\<not> is_valid (TweetForm empty_db (POST (post_text (replicate 281 120)))
        (FILES (post_text (replicate 281 120)))) \<and>
   tweet_create 0 empty_db (post_text (replicate 281 120)) =
     Inr \<lparr>r_db = empty_db, r_messages = [],
          r_response = Render ''tweets/tweet_form.html''
            (FormCtx (TweetForm empty_db (POST (post_text (replicate 281 120)))
               (FILES (post_text (replicate 281 120)))))\<rparr>"
proof -
  have "strip (replicate 281 120) = replicate 281 120"
    by (rule strip_replicate) (simp add: isspace_def)
  then have l: "length (strip (replicate 281 120)) > 280" by simp
  show ?thesis
    using create_rejects_text_long_after_strip[OF post_text_sel(1,2) l, of empty_db 0]
    by simp
qed

lemma strip_replicate_snoc:
  assumes "\<not> isspace c" "isspace w" "0 < n"
  shows "strip (replicate n c @ [w]) = replicate n c"
proof -
  have h: "hd (replicate n c @ [w]) = c" using assms(3) by (cases n) simp_all
  have a: "dropWhile isspace (replicate n c @ [w]) = replicate n c @ [w]"
    using assms(1) h by (simp add: dropWhile_eq_self_iff)
  have "hd (replicate n c) = c" using assms(3) by (cases n) simp_all
  then have b: "dropWhile isspace (replicate n c) = replicate n c"
    using assms(1) by (simp add: dropWhile_eq_self_iff)
  show ?thesis using a b assms(2) by (simp add: strip_def)
qed

text \<open>
  C2 as stated fails: 280 times \<open>x\<close> followed by one space is 281 characters long,
  and the POST is accepted: the form strips the space before it checks the length, and a
  Tweet of 280 characters is persisted.
\<close>

theorem create_long_text_accepted_counterexample:
  "length (replicate 280 120 @ [32]) > 280 \<and>
   tweet_create 0 empty_db (post_text (replicate 280 120 @ [32])) =
     Inr \<lparr>r_db = \<lparr>users = [\<lparr>user_id = 1, username = py ''demo'',
                             password = py ''demo12345'', is_active = True\<rparr>],
                   tweets = [\<lparr>tweet_text = replicate 280 120, tweet_image = None,
                              author = Some 1, tweet_id = 1, created_at = 0\<rparr>]\<rparr>,
          r_messages = [(''success'', ''Tweet posted successfully!'')],
          r_response = Redirect ''/''\<rparr>"
proof -
  have s: "strip (replicate 280 120 @ [32]) = replicate 280 120"
    by (rule strip_replicate_snoc) (simp_all add: isspace_def)
  have c: "CharField_clean Tweet_text_max_length
      (querydict_get (POST (post_text (replicate 280 120 @ [32]))) (py ''text''))
      = Inr (replicate 280 120)"
    using CharField_clean_strip[of "replicate 280 120 @ [32]" Tweet_text_max_length]
    by (simp add: s post_text_sel Tweet_text_max_length_def)
  have im: "ImageField_clean
      (querydict_get (FILES (post_text (replicate 280 120 @ [32]))) (py ''image'')) = Inr None"
    by (simp add: post_text_sel ImageField_clean_None)
  show ?thesis
    using tweet_create_valid[OF post_text_sel(1) c im get_or_create_empty, of 0]
    by (simp add: next_pk_def)
qed

lemma Tweet_objects_all_desc:
  assumes "i < length (Tweet_objects_all d)" "j < length (Tweet_objects_all d)"
    and "created_at (Tweet_objects_all d ! i) < created_at (Tweet_objects_all d ! j)"
  shows "j < i"
proof (rule ccontr)
  let ?ts = "Tweet_objects_all d"
  let ?ks = "map (\<lambda>t. - created_at t) ?ts"
  assume "\<not> j < i"
  then have ij: "i \<le> j" by simp
  have s: "sorted ?ks" by (simp add: Tweet_objects_all_def)
  have l: "j < length ?ks" using assms(2) by simp
  from s ij l have "?ks ! i \<le> ?ks ! j" by (rule sorted_nth_mono)
  then have "created_at (?ts ! j) \<le> created_at (?ts ! i)" using assms(1,2) by simp
  with assms(3) show False by simp
qed

text \<open>
  C3. The list view returns every persisted Tweet, each once, whatever the database
  holds; and for any two persisted Tweets \<open>A\<close> and \<open>B\<close> with
  \<open>A.created_at < B.created_at\<close>, \<open>B\<close> stands before \<open>A\<close> in the returned list: it
  has a position before one of \<open>A\<close>, and no position of \<open>A\<close> is before a position of
  \<open>B\<close>.
\<close>

theorem tweet_list_newest_first:
  "\<exists>ts. tweet_list d rq =
           Inr \<lparr>r_db = d, r_messages = [],
                r_response = Render ''tweets/tweet_list.html'' (TweetsCtx ts)\<rparr> \<and>
         mset ts = mset (tweets d) \<and>
         (\<forall>A B. A \<in> set (tweets d) \<and> B \<in> set (tweets d) \<and> created_at A < created_at B \<longrightarrow>
            (\<exists>i j. i < j \<and> j < length ts \<and> ts ! i = B \<and> ts ! j = A) \<and>
            (\<forall>i j. i < length ts \<and> j < length ts \<and> ts ! i = A \<and> ts ! j = B \<longrightarrow> j < i))"
proof -
  let ?ts = "Tweet_objects_all d"
  have m: "mset ?ts = mset (tweets d)" by (simp add: Tweet_objects_all_def)
  have o: "(\<exists>i j. i < j \<and> j < length ?ts \<and> ?ts ! i = B \<and> ?ts ! j = A) \<and>
           (\<forall>i j. i < length ?ts \<and> j < length ?ts \<and> ?ts ! i = A \<and> ?ts ! j = B \<longrightarrow> j < i)"
    if A: "A \<in> set (tweets d)" and B: "B \<in> set (tweets d)"
      and lt: "created_at A < created_at B" for A B
  proof -
    have "A \<in> set ?ts" "B \<in> set ?ts" using A B by (simp_all add: Tweet_objects_all_def)
    then obtain j i where j: "j < length ?ts" "?ts ! j = A"
      and i: "i < length ?ts" "?ts ! i = B"
      by (auto simp: in_set_conv_nth)
    have "i < j" using Tweet_objects_all_desc[OF j(1) i(1)] j(2) i(2) lt by simp
    then have e: "\<exists>i j. i < j \<and> j < length ?ts \<and> ?ts ! i = B \<and> ?ts ! j = A"
      using j i by blast
    have a: "\<forall>i j. i < length ?ts \<and> j < length ?ts \<and> ?ts ! i = A \<and> ?ts ! j = B \<longrightarrow> j < i"
      using Tweet_objects_all_desc[of _ d] lt by auto
    from e a show ?thesis by simp
  qed
  have "tweet_list d rq =
          Inr \<lparr>r_db = d, r_messages = [],
               r_response = Render ''tweets/tweet_list.html'' (TweetsCtx ?ts)\<rparr>"
    by (simp add: tweet_list_def)
  with m o show ?thesis by blast
qed

theorem tweet_list_newest_first_witness:
  "tweet_list
          \<lparr>users = [],
           tweets = [\<lparr>tweet_text = py ''First tweet'', tweet_image = None, author = None,
                      tweet_id = 1, created_at = 10\<rparr>,
                     \<lparr>tweet_text = py ''Second tweet'', tweet_image = None, author = None,
                      tweet_id = 2, created_at = 20\<rparr>]\<rparr>
          \<lparr>path = ''/'', http_method = ''GET'', POST = [], FILES = [], request_user = None\<rparr> =
         Inr \<lparr>r_db = \<lparr>users = [],
                tweets = [\<lparr>tweet_text = py ''First tweet'', tweet_image = None, author = None,
                      tweet_id = 1, created_at = 10\<rparr>,
                     \<lparr>tweet_text = py ''Second tweet'', tweet_image = None, author = None,
                      tweet_id = 2, created_at = 20\<rparr>]\<rparr>, r_messages = [],
              r_response = Render ''tweets/tweet_list.html''
                (TweetsCtx
                  [\<lparr>tweet_text = py ''Second tweet'', tweet_image = None, author = None,
                      tweet_id = 2, created_at = 20\<rparr>,
                   \<lparr>tweet_text = py ''First tweet'', tweet_image = None, author = None,
                      tweet_id = 1, created_at = 10\<rparr>])\<rparr> \<and>
   tweet_list
          \<lparr>users = [],
           tweets = [\<lparr>tweet_text = py ''First tweet'', tweet_image = None, author = None,
                      tweet_id = 1, created_at = 10\<rparr>]\<rparr>
          \<lparr>path = ''/'', http_method = ''GET'', POST = [], FILES = [], request_user = None\<rparr> =
         Inr \<lparr>r_db = \<lparr>users = [],
                tweets = [\<lparr>tweet_text = py ''First tweet'', tweet_image = None, author = None,
                      tweet_id = 1, created_at = 10\<rparr>]\<rparr>, r_messages = [],
              r_response = Render ''tweets/tweet_list.html''
                (TweetsCtx
                  [\<lparr>tweet_text = py ''First tweet'', tweet_image = None, author = None,
                      tweet_id = 1, created_at = 10\<rparr>])\<rparr>"
proof -
  let ?A = "\<lparr>tweet_text = py ''First tweet'', tweet_image = None, author = None,
                      tweet_id = 1, created_at = 10\<rparr>"
  let ?B = "\<lparr>tweet_text = py ''Second tweet'', tweet_image = None, author = None,
                      tweet_id = 2, created_at = 20\<rparr>"
  let ?rq = "\<lparr>path = ''/'', http_method = ''GET'', POST = [], FILES = [],
              request_user = None\<rparr>"
  let ?d2 = "\<lparr>users = [], tweets = [?A, ?B]\<rparr>"
  let ?d1 = "\<lparr>users = [], tweets = [?A]\<rparr>"
  from tweet_list_newest_first[of ?d2 ?rq]
  obtain ts where r: "tweet_list ?d2 ?rq =
           Inr \<lparr>r_db = ?d2, r_messages = [],
                r_response = Render ''tweets/tweet_list.html'' (TweetsCtx ts)\<rparr>"
    and m: "mset ts = mset (tweets ?d2)"
    and o: "\<forall>A B. A \<in> set (tweets ?d2) \<and> B \<in> set (tweets ?d2) \<and>
              created_at A < created_at B \<longrightarrow>
            (\<exists>i j. i < j \<and> j < length ts \<and> ts ! i = B \<and> ts ! j = A) \<and>
            (\<forall>i j. i < length ts \<and> j < length ts \<and> ts ! i = A \<and> ts ! j = B \<longrightarrow> j < i)"
    by blast
  have "?A \<in> set (tweets ?d2) \<and> ?B \<in> set (tweets ?d2) \<and> created_at ?A < created_at ?B"
    by simp
  with o obtain i j where ij: "i < j" "j < length ts" "ts ! i = ?B" "ts ! j = ?A" by blast
  have "length ts = size (mset (tweets ?d2))" using m by (metis size_mset)
  then have len: "length ts = 2" by simp
  then obtain x y where xy: "ts = [x, y]"
    by (auto simp: length_Suc_conv numeral_2_eq_2)
  have "i = 0" "j = 1" using ij(1,2) len by simp_all
  then have ts: "ts = [?B, ?A]" using ij(3,4) xy by simp
  from tweet_list_newest_first[of ?d1 ?rq]
  obtain ts1 where r1: "tweet_list ?d1 ?rq =
           Inr \<lparr>r_db = ?d1, r_messages = [],
                r_response = Render ''tweets/tweet_list.html'' (TweetsCtx ts1)\<rparr>"
    and m1: "mset ts1 = mset (tweets ?d1)"
    by blast
  have ts1: "ts1 = [?A]" using m1 by simp
  show ?thesis using r ts r1 ts1 by simp
qed

text \<open>
  C8. The 280-character bound is enforced by the model only under full validation: for
  a Tweet whose text is longer than 280 characters, \<open>full_clean\<close> raises a validation
  error with \<open>max_length\<close> on \<open>text\<close>, and a direct save, which runs no validation,
  inserts the row with the text as it is.
\<close>

theorem max_length_only_on_full_clean:
  assumes "length (tweet_text t) > 280"
  shows "(\<exists>errs. full_clean d t = Inl (ValidationError errs) \<and>
            (''text'', ''max_length'') \<in> set errs) \<and>
         (\<exists>row. Tweet_save now d t = (d\<lparr>tweets := tweets d @ [row]\<rparr>, row) \<and>
            tweet_text row = tweet_text t)"
proof -
  have "tweet_text t \<noteq> []" using assms by auto
  then have "(''text'', ''max_length'') \<in> set (clean_fields [] d t)"
    using assms by (simp add: clean_fields_def Tweet_text_max_length_def)
  then have "\<exists>errs. full_clean d t = Inl (ValidationError errs) \<and>
            (''text'', ''max_length'') \<in> set errs"
    by (auto simp: full_clean_def Let_def)
  moreover have "\<exists>row. Tweet_save now d t = (d\<lparr>tweets := tweets d @ [row]\<rparr>, row) \<and>
            tweet_text row = tweet_text t"
    by (simp add: Tweet_save_def Let_def)
  ultimately show ?thesis by simp
qed

theorem max_length_only_on_full_clean_witness:
  "full_clean
     \<lparr>users = [\<lparr>user_id = 1, username = py ''testuser'', password = py ''testpass123'',
                is_active = True\<rparr>], tweets = []\<rparr>
     \<lparr>tweet_text = replicate 281 120, tweet_image = None, author = Some 1\<rparr>
     = Inl (ValidationError [(''text'', ''max_length'')]) \<and>
   tweets (fst (Tweet_save 0
     \<lparr>users = [\<lparr>user_id = 1, username = py ''testuser'', password = py ''testpass123'',
                is_active = True\<rparr>], tweets = []\<rparr>
     \<lparr>tweet_text = replicate 281 120, tweet_image = None, author = Some 1\<rparr>))
     = [\<lparr>tweet_text = replicate 281 120, tweet_image = None, author = Some 1,
         tweet_id = 1, created_at = 0\<rparr>]"
proof -
  have l: "length (tweet_text
      \<lparr>tweet_text = replicate 281 (120::nat), tweet_image = None, author = Some 1\<rparr>) > 280"
    by simp
  have n: "replicate 281 (120::nat) \<noteq> []" by (simp del: replicate.simps)
  show ?thesis
    using max_length_only_on_full_clean[OF l,
      of "\<lparr>users = [\<lparr>user_id = 1, username = py ''testuser'', password = py ''testpass123'',
                is_active = True\<rparr>], tweets = []\<rparr>" 0] n
    by (simp add: full_clean_def clean_fields_def Tweet_text_max_length_def Tweet_save_def
        next_pk_def Let_def del: replicate.simps)
qed

text \<open>
  C9. The string representation of a Tweet is \<open>Anonymous: \<close> followed by the first 50
  characters of the text and \<open>...\<close> when the author is null, and the author's user name,
  \<open>: \<close>, the first 50 characters and \<open>...\<close> when an author is set. The \<open>...\<close> is
  appended also when the text has 50 characters or fewer: the whole text is followed by it.
\<close>

theorem Tweet_str_format:
  "(author t = None \<longrightarrow>
      Tweet_str d t = Inr (py ''Anonymous: '' @ take 50 (tweet_text t) @ py ''...'')) \<and>
   (\<forall>k u. author t = Some k \<and> User_get d k = Inr u \<longrightarrow>
      Tweet_str d t = Inr (username u @ py '': '' @ take 50 (tweet_text t) @ py ''...'')) \<and>
   (\<forall>s. Tweet_str d t = Inr s \<and> length (tweet_text t) \<le> 50 \<longrightarrow>
      (\<exists>name. s = name @ py '': '' @ tweet_text t @ py ''...''))"
proof -
  have a: "author t = None \<longrightarrow>
      Tweet_str d t = Inr (py ''Anonymous: '' @ take 50 (tweet_text t) @ py ''...'')"
    by (simp add: Tweet_str_def py_def)
  have b: "\<forall>k u. author t = Some k \<and> User_get d k = Inr u \<longrightarrow>
      Tweet_str d t = Inr (username u @ py '': '' @ take 50 (tweet_text t) @ py ''...'')"
    by (simp add: Tweet_str_def)
  have c: "\<forall>s. Tweet_str d t = Inr s \<and> length (tweet_text t) \<le> 50 \<longrightarrow>
      (\<exists>name. s = name @ py '': '' @ tweet_text t @ py ''...'')"
    by (auto simp: Tweet_str_def split: sum.splits)
  from a b c show ?thesis by blast
qed

theorem Tweet_str_format_witness:
  "Tweet_str
     \<lparr>users = [\<lparr>user_id = 1, username = py ''testuser'', password = py ''testpass123'',
                is_active = True\<rparr>], tweets = []\<rparr>
     \<lparr>tweet_text = py ''Test tweet for string representation'', tweet_image = None,
      author = Some 1\<rparr>
     = Inr (py ''testuser: Test tweet for string representation...'') \<and>
   Tweet_str empty_db \<lparr>tweet_text = py ''Anonymous tweet'', tweet_image = None, author = None\<rparr>
     = Inr (py ''Anonymous: Anonymous tweet...'')"
proof -
  have u: "User_get
     \<lparr>users = [\<lparr>user_id = 1, username = py ''testuser'', password = py ''testpass123'',
                is_active = True\<rparr>], tweets = []\<rparr> 1
     = Inr \<lparr>user_id = 1, username = py ''testuser'', password = py ''testpass123'',
                is_active = True\<rparr>"
    by (simp add: User_get_def)
  show ?thesis
    using u
      Tweet_str_format[of "\<lparr>tweet_text = py ''Test tweet for string representation'',
          tweet_image = None, author = Some 1\<rparr>"
        "\<lparr>users = [\<lparr>user_id = 1, username = py ''testuser'', password = py ''testpass123'',
                is_active = True\<rparr>], tweets = []\<rparr>"]
      Tweet_str_format[of "\<lparr>tweet_text = py ''Anonymous tweet'', tweet_image = None,
          author = None\<rparr>" empty_db]
    by (simp add: py_def)
qed

lemma dispatch_users:
  assumes "dispatch now d rq = Inr r"
  shows "\<exists>new. users (r_db r) = users d @ new"
proof (cases "path rq = ''/create/''")
  case True
  then have "tweet_create now d rq = Inr r" using assms by (simp add: dispatch_def)
  from tweet_create_Inr_cases[OF this] show ?thesis
  proof
    assume "\<exists>f. r = \<lparr>r_db = d, r_messages = [],
                    r_response = Render ''tweets/tweet_form.html'' (FormCtx f)\<rparr> \<and>
              \<not> (http_method rq = ''POST'' \<and> is_valid (TweetForm d (POST rq) (FILES rq)))"
    then have "r_db r = d" by auto
    then show ?thesis by simp
  next
    assume "http_method rq = ''POST'' \<and> is_valid (TweetForm d (POST rq) (FILES rq)) \<and>
          (\<exists>d1 u c s i. get_or_create d (py ''demo'') (py ''demo12345'') True = Inr (d1, u, c) \<and>
             r = \<lparr>r_db = d1\<lparr>tweets := tweets d1 @
                     [\<lparr>tweet_text = s, tweet_image = i, author = Some (user_id u),
                       tweet_id = next_pk (map tweet_id (tweets d1)), created_at = now\<rparr>]\<rparr>,
                   r_messages = [(''success'', ''Tweet posted successfully!'')],
                   r_response = Redirect ''/''\<rparr>)"
    then obtain d1 u c where
      g: "get_or_create d (py ''demo'') (py ''demo12345'') True = Inr (d1, u, c)"
      and r: "users (r_db r) = users d1" by auto
    show ?thesis using get_or_create_Inr[OF g] r by simp
  qed
next
  case False
  then have "r_db r = d"
    using assms by (auto simp: dispatch_def tweet_list_def Let_def split: if_splits)
  then show ?thesis by simp
qed

lemma run_users:
  "run d reqs = Inr d' \<Longrightarrow> \<exists>new. users d' = users d @ new"
proof (induction reqs arbitrary: d)
  case Nil
  then show ?case by simp
next
  case (Cons a reqs)
  obtain now rq where a: "a = (now, rq)" by (cases a) auto
  from Cons.prems a obtain r where r: "dispatch now d rq = Inr r" "run (r_db r) reqs = Inr d'"
    by (auto split: sum.splits)
  from dispatch_users[OF r(1)] obtain n1 where "users (r_db r) = users d @ n1" by blast
  moreover from Cons.IH[OF r(2)] obtain n2 where "users d' = users (r_db r) @ n2" by blast
  ultimately show ?case by simp
qed

lemma create_demo_step:
  assumes u: "unique_users d"
    and m: "http_method rq = ''POST''"
    and v: "is_valid (TweetForm d (POST rq) (FILES rq))"
  shows "\<exists>r a row. tweet_create now d rq = Inr r \<and> tweets (r_db r) = tweets d @ [row] \<and>
           author row = Some (user_id a) \<and> username a = py ''demo'' \<and>
           filter (\<lambda>x. username x = py ''demo'') (users (r_db r)) = [a] \<and>
           unique_users (r_db r) \<and>
           (if py ''demo'' \<in> set (map username (users d)) then users (r_db r) = users d
            else users (r_db r) = users d @ [a])"
proof -
  from v obtain s i where
    s: "CharField_clean Tweet_text_max_length (querydict_get (POST rq) (py ''text'')) = Inr s"
    and i: "ImageField_clean (querydict_get (FILES rq) (py ''image'')) = Inr i"
    by (auto simp: is_valid_iff)
  from get_or_create_unique[OF u, of "py ''demo''" "py ''demo12345''" True]
  obtain d1 a c where
    g: "get_or_create d (py ''demo'') (py ''demo12345'') True = Inr (d1, a, c)"
    and u1: "unique_users d1"
    and f: "filter (\<lambda>x. username x = py ''demo'') (users d1) = [a]"
    and t: "tweets d1 = tweets d"
    and c: "if py ''demo'' \<in> set (map username (users d)) then users d1 = users d
            else users d1 = users d @ [a]"
    by blast
  have n: "username a = py ''demo''" using get_or_create_Inr[OF g] by simp
  have u2: "unique_users (d1\<lparr>tweets := tweets d1 @
            [\<lparr>tweet_text = s, tweet_image = i, author = Some (user_id a),
              tweet_id = next_pk (map tweet_id (tweets d1)), created_at = now\<rparr>]\<rparr>)"
    using u1 by (simp add: unique_users_def)
  show ?thesis
    using tweet_create_valid[OF m s i g, of now] f t c n u2 by auto
qed

text \<open>
  C4. A valid POST to the create view, whoever sends it, on a database that keeps user
  names unique: the new Tweet's author is a user account named \<open>demo\<close>, which is created
  if the database has none and is the existing one otherwise. A second valid POST leaves
  the user table as it is and gives its Tweet the same author. After any further requests
  that account is still the only one named \<open>demo\<close>.
\<close>

theorem demo_author_get_or_create:
  assumes u: "unique_users d"
    and m: "http_method rq = ''POST''"
    and v: "is_valid (TweetForm d (POST rq) (FILES rq))"
  shows "\<exists>r a row. tweet_create now d rq = Inr r \<and> tweets (r_db r) = tweets d @ [row] \<and>
           author row = Some (user_id a) \<and> username a = py ''demo'' \<and>
           filter (\<lambda>x. username x = py ''demo'') (users (r_db r)) = [a] \<and>
           (if py ''demo'' \<in> set (map username (users d)) then users (r_db r) = users d
            else users (r_db r) = users d @ [a]) \<and>
           (\<forall>now2 rq2. http_method rq2 = ''POST'' \<and>
               is_valid (TweetForm (r_db r) (POST rq2) (FILES rq2)) \<longrightarrow>
               (\<exists>r2 row2. tweet_create now2 (r_db r) rq2 = Inr r2 \<and>
                  users (r_db r2) = users (r_db r) \<and>
                  tweets (r_db r2) = tweets (r_db r) @ [row2] \<and> author row2 = author row)) \<and>
           (\<forall>reqs. \<exists>d'. run (r_db r) reqs = Inr d' \<and>
               filter (\<lambda>x. username x = py ''demo'') (users d') = [a])"
proof -
  from create_demo_step[OF u m v, of now]
  obtain r a row where r: "tweet_create now d rq = Inr r"
    and t: "tweets (r_db r) = tweets d @ [row]"
    and au: "author row = Some (user_id a)" and n: "username a = py ''demo''"
    and f: "filter (\<lambda>x. username x = py ''demo'') (users (r_db r)) = [a]"
    and u1: "unique_users (r_db r)"
    and c: "if py ''demo'' \<in> set (map username (users d)) then users (r_db r) = users d
            else users (r_db r) = users d @ [a]"
    by blast
  have mem: "a \<in> set (users (r_db r))"
  proof -
    have "a \<in> set (filter (\<lambda>x. username x = py ''demo'') (users (r_db r)))" using f by simp
    then show ?thesis by simp
  qed
  have second: "\<exists>r2 row2. tweet_create now2 (r_db r) rq2 = Inr r2 \<and>
                  users (r_db r2) = users (r_db r) \<and>
                  tweets (r_db r2) = tweets (r_db r) @ [row2] \<and> author row2 = author row"
    if m2: "http_method rq2 = ''POST''"
      and v2: "is_valid (TweetForm (r_db r) (POST rq2) (FILES rq2))" for now2 rq2
  proof -
    from create_demo_step[OF u1 m2 v2, of now2]
    obtain r2 a2 row2 where r2: "tweet_create now2 (r_db r) rq2 = Inr r2"
      and t2: "tweets (r_db r2) = tweets (r_db r) @ [row2]"
      and au2: "author row2 = Some (user_id a2)"
      and f2: "filter (\<lambda>x. username x = py ''demo'') (users (r_db r2)) = [a2]"
      and c2: "if py ''demo'' \<in> set (map username (users (r_db r)))
               then users (r_db r2) = users (r_db r)
               else users (r_db r2) = users (r_db r) @ [a2]"
      by blast
    have "py ''demo'' \<in> set (map username (users (r_db r)))" using mem n by force
    with c2 have e: "users (r_db r2) = users (r_db r)" by simp
    with f f2 have "a2 = a" by simp
    with r2 t2 au2 au e show ?thesis by simp
  qed
  have later: "\<exists>d'. run (r_db r) reqs = Inr d' \<and>
               filter (\<lambda>x. username x = py ''demo'') (users d') = [a]" for reqs
  proof -
    from run_unique[OF u1, of reqs] obtain d' where d': "run (r_db r) reqs = Inr d'"
      and u': "unique_users d'" by blast
    from run_users[OF d'] obtain new where "users d' = users (r_db r) @ new" by blast
    then have "a \<in> set (filter (\<lambda>x. username x = py ''demo'') (users d'))"
      using mem n by simp
    moreover have "length (filter (\<lambda>x. username x = py ''demo'') (users d')) \<le> 1"
      using u' filter_key_le_one[of username "users d'" "py ''demo''"]
      by (simp add: unique_users_def)
    ultimately have "filter (\<lambda>x. username x = py ''demo'') (users d') = [a]"
      by (cases "filter (\<lambda>x. username x = py ''demo'') (users d')") auto
    with d' show ?thesis by simp
  qed
  from r t au n f c second later show ?thesis by blast
qed

lemma is_valid_post_text:
  assumes "strip T \<noteq> []" "length (strip T) \<le> 280" "0 \<notin> set (strip T)"
  shows "is_valid (TweetForm d (POST (post_text T)) (FILES (post_text T)))"
  using assms CharField_clean_strip[of T Tweet_text_max_length]
  by (simp add: is_valid_iff post_text_sel ImageField_clean_None Tweet_text_max_length_def)

lemma is_valid_hello:
  "is_valid (TweetForm d (POST (post_text (py ''hello world'')))
     (FILES (post_text (py ''hello world''))))"
proof -
  have s: "strip (py ''hello world'') = py ''hello world''"
    by (simp add: strip_def py_def isspace_def)
  show ?thesis by (rule is_valid_post_text) (simp_all add: s, simp_all add: py_def)
qed

theorem demo_author_get_or_create_witness:
  "\<exists>r a row. tweet_create 5 empty_db (post_text (py ''hello world'')) = Inr r \<and>
     tweets (r_db r) = tweets empty_db @ [row] \<and>
     author row = Some (user_id a) \<and> username a = py ''demo'' \<and>
     users (r_db r) = [a] \<and>
     (\<exists>r2 row2. tweet_create 6 (r_db r) (post_text (py ''hello world'')) = Inr r2 \<and>
        users (r_db r2) = [a] \<and> author row2 = author row \<and>
        tweets (r_db r2) = tweets (r_db r) @ [row2])"
proof -
  from demo_author_get_or_create[OF unique_users_empty post_text_sel(1) is_valid_hello, of 5]
  obtain r a row where r: "tweet_create 5 empty_db (post_text (py ''hello world'')) = Inr r"
    and t: "tweets (r_db r) = tweets empty_db @ [row]"
    and au: "author row = Some (user_id a)" and n: "username a = py ''demo''"
    and c: "if py ''demo'' \<in> set (map username (users empty_db))
            then users (r_db r) = users empty_db else users (r_db r) = users empty_db @ [a]"
    and s: "\<forall>now2 rq2. http_method rq2 = ''POST'' \<and>
               is_valid (TweetForm (r_db r) (POST rq2) (FILES rq2)) \<longrightarrow>
               (\<exists>r2 row2. tweet_create now2 (r_db r) rq2 = Inr r2 \<and>
                  users (r_db r2) = users (r_db r) \<and>
                  tweets (r_db r2) = tweets (r_db r) @ [row2] \<and> author row2 = author row)"
    by blast
  have us: "users (r_db r) = [a]" using c by (simp add: empty_db_def)
  from s post_text_sel(1) is_valid_hello
  obtain r2 row2 where "tweet_create 6 (r_db r) (post_text (py ''hello world'')) = Inr r2"
    "users (r_db r2) = users (r_db r)" "tweets (r_db r2) = tweets (r_db r) @ [row2]"
    "author row2 = author row" by blast
  with r t au n us show ?thesis by auto
qed

text \<open>
  C5. A valid POST to the create view: whenever the view returns, it has added the one
  flash message \<open>Tweet posted successfully!\<close> at level success, and its response is a
  redirect (status 302) to \<open>/\<close>, the path of the list view, not a rendered form; one
  Tweet has been added. On a database that keeps user names unique the view does return.
\<close>

theorem create_success_redirects:
  assumes m: "http_method rq = ''POST''"
    and v: "is_valid (TweetForm d (POST rq) (FILES rq))"
  shows "(\<forall>r. tweet_create now d rq = Inr r \<longrightarrow>
            r_messages r = [(''success'', ''Tweet posted successfully!'')] \<and>
            r_response r = Redirect ''/'' \<and> status_code (r_response r) = 302 \<and>
            (\<forall>t c. r_response r \<noteq> Render t c) \<and>
            length (tweets (r_db r)) = Suc (length (tweets d))) \<and>
         (unique_users d \<longrightarrow> (\<exists>r. tweet_create now d rq = Inr r)) \<and>
         reverse ''tweet_list'' = Inr ''/''"
proof -
  have a: "r_messages r = [(''success'', ''Tweet posted successfully!'')] \<and>
            r_response r = Redirect ''/'' \<and> status_code (r_response r) = 302 \<and>
            (\<forall>t c. r_response r \<noteq> Render t c) \<and>
            length (tweets (r_db r)) = Suc (length (tweets d))"
    if r: "tweet_create now d rq = Inr r" for r
  proof -
    from tweet_create_Inr_cases[OF r] m v
    obtain d1 u c s i where
      g: "get_or_create d (py ''demo'') (py ''demo12345'') True = Inr (d1, u, c)"
      and e: "r = \<lparr>r_db = d1\<lparr>tweets := tweets d1 @
                     [\<lparr>tweet_text = s, tweet_image = i, author = Some (user_id u),
                       tweet_id = next_pk (map tweet_id (tweets d1)), created_at = now\<rparr>]\<rparr>,
                   r_messages = [(''success'', ''Tweet posted successfully!'')],
                   r_response = Redirect ''/''\<rparr>"
      by blast
    have "tweets d1 = tweets d" using get_or_create_Inr[OF g] by simp
    then show ?thesis using e by (simp add: status_code_def)
  qed
  have b: "unique_users d \<longrightarrow> (\<exists>r. tweet_create now d rq = Inr r)"
    using tweet_create_unique[of d now rq] by blast
  have c: "reverse ''tweet_list'' = Inr ''/''" by (simp add: reverse_def)
  from a b c show ?thesis by blast
qed

theorem create_success_redirects_witness:
  "\<exists>r. tweet_create 5 empty_db (post_text (py ''hello world'')) = Inr r \<and>
     r_messages r = [(''success'', ''Tweet posted successfully!'')] \<and>
     r_response r = Redirect ''/'' \<and> status_code (r_response r) = 302"
  using create_success_redirects[where d = empty_db and now = 5
      and rq = "post_text (py ''hello world'')", OF post_text_sel(1) is_valid_hello]
    unique_users_empty
  by blast

text \<open>
  C6. A POST to the create view whose form does not validate: the view renders the
  creation form again (status 200, no redirect), bound and with at least one field
  error; it adds no flash message, and the database after the request is the database
  before it, so no Tweet and no demo account is created.
\<close>

theorem create_invalid_rerenders:
  assumes m: "http_method rq = ''POST''"
    and nv: "\<not> is_valid (TweetForm d (POST rq) (FILES rq))"
  shows "tweet_create now d rq =
           Inr \<lparr>r_db = d, r_messages = [],
                r_response = Render ''tweets/tweet_form.html''
                               (FormCtx (TweetForm d (POST rq) (FILES rq)))\<rparr> \<and>
         is_bound (TweetForm d (POST rq) (FILES rq)) \<and>
         form_errors (TweetForm d (POST rq) (FILES rq)) \<noteq> [] \<and>
         status_code (Render ''tweets/tweet_form.html''
                        (FormCtx (TweetForm d (POST rq) (FILES rq)))) = 200"
  using tweet_create_invalid[OF m nv, of now] nv TweetForm_bound[of d "POST rq" "FILES rq"]
  by (simp add: is_valid_def status_code_def)

lemma TweetForm_empty_text:
  "TweetForm d (POST (post_text [])) (FILES (post_text [])) =
     \<lparr>is_bound = True, form_errors = [(''text'', ''required'')],
      form_instance = \<lparr>tweet_text = [], tweet_image = None, author = None\<rparr>\<rparr>"
  by (simp add: TweetForm_def post_text_sel CharField_clean_def CharField_to_python_def
      ImageField_clean_def clean_fields_def Let_def)

theorem create_invalid_rerenders_witness:
  "tweet_create 5 empty_db (post_text []) =
     Inr \<lparr>r_db = empty_db, r_messages = [],
          r_response = Render ''tweets/tweet_form.html''
            (FormCtx \<lparr>is_bound = True, form_errors = [(''text'', ''required'')],
               form_instance = \<lparr>tweet_text = [], tweet_image = None, author = None\<rparr>\<rparr>)\<rparr>"
proof -
  have nv: "\<not> is_valid (TweetForm empty_db (POST (post_text [])) (FILES (post_text [])))"
    by (simp add: TweetForm_empty_text is_valid_def)
  show ?thesis
    using create_invalid_rerenders[OF post_text_sel(1) nv, of 5]
    by (simp add: TweetForm_empty_text)
qed

text \<open>
  C7. No request changes a Tweet that exists: a request served at time \<open>now\<close> leaves
  the Tweet table as it was, followed by the rows it inserted, each with
  \<open>created_at = now\<close>; after any run of requests every Tweet that existed before is still
  at its place with all its fields, \<open>created_at\<close> among them. A run on a database that
  keeps user names unique ends without an exception.
\<close>

theorem created_at_immutable:
  "(\<forall>r. dispatch now d rq = Inr r \<longrightarrow>
      (\<exists>new. tweets (r_db r) = tweets d @ new \<and> (\<forall>t\<in>set new. created_at t = now))) \<and>
   (\<forall>d'. run d reqs = Inr d' \<longrightarrow>
      length (tweets d) \<le> length (tweets d') \<and>
      (\<forall>i<length (tweets d). tweets d' ! i = tweets d ! i \<and>
          created_at (tweets d' ! i) = created_at (tweets d ! i))) \<and>
   (unique_users d \<longrightarrow> (\<exists>d'. run d reqs = Inr d'))"
proof -
  have a: "\<forall>r. dispatch now d rq = Inr r \<longrightarrow>
      (\<exists>new. tweets (r_db r) = tweets d @ new \<and> (\<forall>t\<in>set new. created_at t = now))"
    using dispatch_tweets by blast
  have b: "length (tweets d) \<le> length (tweets d') \<and>
      (\<forall>i<length (tweets d). tweets d' ! i = tweets d ! i \<and>
          created_at (tweets d' ! i) = created_at (tweets d ! i))"
    if "run d reqs = Inr d'" for d'
  proof -
    from run_tweets[OF that] obtain new where "tweets d' = tweets d @ new" by blast
    then show ?thesis by (simp add: nth_append)
  qed
  have c: "unique_users d \<longrightarrow> (\<exists>d'. run d reqs = Inr d')"
    using run_unique[of d reqs] by blast
  from a b c show ?thesis by blast
qed

theorem created_at_immutable_witness:
  "\<exists>d'. run \<lparr>users = [], tweets = [\<lparr>tweet_text = py ''First tweet'', tweet_image = None,
                    author = None, tweet_id = 1, created_at = 10\<rparr>]\<rparr>
           [(20, post_text (py ''hello world'')),
            (30, \<lparr>path = ''/'', http_method = ''GET'', POST = [], FILES = [],
                  request_user = None\<rparr>)] = Inr d' \<and>
         tweets d' ! 0 = \<lparr>tweet_text = py ''First tweet'', tweet_image = None,
                    author = None, tweet_id = 1, created_at = 10\<rparr> \<and>
         created_at (tweets d' ! 0) = 10"
proof -
  let ?d = "\<lparr>users = [], tweets = [\<lparr>tweet_text = py ''First tweet'', tweet_image = None,
                    author = None, tweet_id = 1, created_at = 10\<rparr>]\<rparr>"
  let ?reqs = "[(20, post_text (py ''hello world'')),
            (30, \<lparr>path = ''/'', http_method = ''GET'', POST = [], FILES = [],
                  request_user = None\<rparr>)]"
  have u: "unique_users ?d" by (simp add: unique_users_def)
  from created_at_immutable[of 0 ?d "post_text []" ?reqs] u
  obtain d' where d': "run ?d ?reqs = Inr d'" by blast
  with created_at_immutable[of 0 ?d "post_text []" ?reqs]
  have "tweets d' ! 0 = tweets ?d ! 0 \<and> created_at (tweets d' ! 0) = created_at (tweets ?d ! 0)"
    by simp
  with d' show ?thesis by simp
qed

lemma TweetForm_cong:
  assumes "querydict_get data (py ''text'') = querydict_get data' (py ''text'')"
    and "querydict_get files (py ''image'') = querydict_get files' (py ''image'')"
  shows "TweetForm d data files = TweetForm d data' files'"
  using assms by (simp add: TweetForm_def)

text \<open>
  C10. The creation form has the fields \<open>text\<close> and \<open>image\<close> only: \<open>author\<close> and
  \<open>created_at\<close> are not among them, and what the create view does depends on the request
  only through its method, the value posted as \<open>text\<close> and the file posted as \<open>image\<close>,
  whatever else the payload holds. Every Tweet the view creates has a non-null author, a
  user account named \<open>demo\<close>, and \<open>created_at\<close> equal to the time of the request.
\<close>

theorem create_ignores_extra_fields:
  "''author'' \<notin> set TweetForm_fields \<and> ''created_at'' \<notin> set TweetForm_fields \<and>
   (http_method rq = http_method rq' \<and>
    querydict_get (POST rq) (py ''text'') = querydict_get (POST rq') (py ''text'') \<and>
    querydict_get (FILES rq) (py ''image'') = querydict_get (FILES rq') (py ''image'') \<longrightarrow>
      tweet_create now d rq = tweet_create now d rq') \<and>
   (\<forall>r. http_method rq = ''POST'' \<and> is_valid (TweetForm d (POST rq) (FILES rq)) \<and>
        tweet_create now d rq = Inr r \<longrightarrow>
        (\<exists>row a. tweets (r_db r) = tweets d @ [row] \<and> author row = Some (user_id a) \<and>
           a \<in> set (users (r_db r)) \<and> username a = py ''demo'' \<and> created_at row = now))"
proof -
  have a: "''author'' \<notin> set TweetForm_fields \<and> ''created_at'' \<notin> set TweetForm_fields"
    by (simp add: TweetForm_fields_def)
  have b: "tweet_create now d rq = tweet_create now d rq'"
    if "http_method rq = http_method rq'"
      and "querydict_get (POST rq) (py ''text'') = querydict_get (POST rq') (py ''text'')"
      and "querydict_get (FILES rq) (py ''image'') = querydict_get (FILES rq') (py ''image'')"
  proof -
    have "TweetForm d (POST rq) (FILES rq) = TweetForm d (POST rq') (FILES rq')"
      using that(2,3) by (rule TweetForm_cong)
    then show ?thesis using that(1) by (simp add: tweet_create_def)
  qed
  have c: "\<exists>row a. tweets (r_db r) = tweets d @ [row] \<and> author row = Some (user_id a) \<and>
           a \<in> set (users (r_db r)) \<and> username a = py ''demo'' \<and> created_at row = now"
    if m: "http_method rq = ''POST''" and v: "is_valid (TweetForm d (POST rq) (FILES rq))"
      and r: "tweet_create now d rq = Inr r" for r
  proof -
    from tweet_create_Inr_cases[OF r] m v
    obtain d1 u c s i where
      g: "get_or_create d (py ''demo'') (py ''demo12345'') True = Inr (d1, u, c)"
      and e: "r = \<lparr>r_db = d1\<lparr>tweets := tweets d1 @
                     [\<lparr>tweet_text = s, tweet_image = i, author = Some (user_id u),
                       tweet_id = next_pk (map tweet_id (tweets d1)), created_at = now\<rparr>]\<rparr>,
                   r_messages = [(''success'', ''Tweet posted successfully!'')],
                   r_response = Redirect ''/''\<rparr>"
      by blast
    from get_or_create_Inr[OF g] have "u \<in> set (users d1)" "username u = py ''demo''"
      "tweets d1 = tweets d" by simp_all
    then show ?thesis using e by auto
  qed
  from a b c show ?thesis by blast
qed

theorem create_ignores_extra_fields_witness:
  "tweet_create 5 empty_db
     \<lparr>path = ''/create/'', http_method = ''POST'',
      POST = [(py ''text'', py ''hello world''), (py ''author'', py ''7''),
              (py ''created_at'', py ''1999-01-01'')],
      FILES = [], request_user = None\<rparr> =
   tweet_create 5 empty_db (post_text (py ''hello world''))"
proof -
  have "querydict_get [(py ''text'', py ''hello world''), (py ''author'', py ''7''),
              (py ''created_at'', py ''1999-01-01'')] (py ''text'') = Some (py ''hello world'')"
    by (simp add: querydict_get_def py_eq_iff)
  then show ?thesis
    using create_ignores_extra_fields[of
      "\<lparr>path = ''/create/'', http_method = ''POST'',
      POST = [(py ''text'', py ''hello world''), (py ''author'', py ''7''),
              (py ''created_at'', py ''1999-01-01'')],
      FILES = [], request_user = None\<rparr>" "post_text (py ''hello world'')" 5 empty_db]
    by (simp add: post_text_sel) (simp add: post_text_def querydict_get_def)
qed

end
